theory Spec2Isabelle
  imports Complex_Main "HOL-Library.Multiset"
begin

section \<open>Momentum optimizer update rule\<close>

text \<open>
  The optimizer class \<^verbatim>\<open>gradient_descent.SGD\<close> is exercised by
  \<^verbatim>\<open>gradient_descent_test.py\<close> but its module is not part of the sources at hand.
  Its numeric contract is therefore taken from the specification (section 4.1), over exact
  rationals; the reference implementation that the test file carries
  (\<^verbatim>\<open>_update_nesterov_momentum_numpy\<close>) is translated from the source.
\<close>

datatype lr_source = Constant rat | Scheduled "nat \<Rightarrow> rat"

record hyperparameters =
  learning_rate :: lr_source
  decay :: rat
  momentum :: rat
  nesterov :: bool

datatype config_error = MomentumOutOfRange | NesterovWithoutMomentum

text \<open>
  Modelled from the spec: the constructor of \<^verbatim>\<open>SGD\<close> (module
  \<^verbatim>\<open>keras/optimizers/optimizer_v2/gradient_descent.py\<close> is missing). ``Construction fails with
  a configuration error if momentum is outside [0,1] or if momentum==0 while Nesterov=true.''
\<close>

definition SGD :: "lr_source \<Rightarrow> rat \<Rightarrow> rat \<Rightarrow> bool \<Rightarrow> config_error + hyperparameters" where
  "SGD lr d m n =
     (if m < 0 \<or> 1 < m then Inl MomentumOutOfRange
      else if m = 0 \<and> n then Inl NesterovWithoutMomentum
      else Inr \<lparr>learning_rate = lr, decay = d, momentum = m, nesterov = n\<rparr>)"

text \<open>
  Modelled from the spec: the learning rate in force at a step (the optimizer module is
  missing). ``If a decay rate d>0 was configured, effective_lr = base_lr / (1 + d*step) ...
  If a schedule object was supplied instead of a scalar learning rate,
  effective_lr = schedule(step) and the fixed-decay formula is not applied.''
\<close>

definition effective_lr :: "hyperparameters \<Rightarrow> nat \<Rightarrow> rat" where
  "effective_lr h step =
     (case learning_rate h of
        Scheduled f \<Rightarrow> f step
      | Constant lr \<Rightarrow> if 0 < decay h then lr / (1 + decay h * of_nat step) else lr)"

text \<open>
  Modelled from the spec: the dense update of one element (the optimizer module is missing),
  contract \<^verbatim>\<open>apply(gradient, variable, accumulator, step) -> (new_variable, new_accumulator)\<close>.
  Without momentum the accumulator is not used; with momentum the accumulator is updated
  first and the variable moves by it (classical) or by the look-ahead term (Nesterov).
\<close>

definition apply_dense :: "hyperparameters \<Rightarrow> nat \<Rightarrow> rat \<Rightarrow> rat \<Rightarrow> rat \<Rightarrow> rat \<times> rat" where
  "apply_dense h step g v a =
     (if momentum h = 0 then (v - effective_lr h step * g, a)
      else
        let new_accumulator = momentum h * a - effective_lr h step * g
        in if nesterov h
           then (v + momentum h * new_accumulator - effective_lr h step * g, new_accumulator)
           else (v + new_accumulator, new_accumulator))"

text \<open>
  Successive updates of one element by one optimizer instance: the step counter starts at
  the given value and is incremented once per update.
\<close>

fun apply_gradients :: "hyperparameters \<Rightarrow> nat \<Rightarrow> rat list \<Rightarrow> rat \<times> rat \<Rightarrow> rat \<times> rat" where
  "apply_gradients h step [] s = s"
| "apply_gradients h step (g # gs) (v, a) =
     apply_gradients h (Suc step) gs (apply_dense h step g v a)"

text \<open>
  The reference computation of the test file, \<^verbatim>\<open>MomentumOptimizerTest._update_nesterov_momentum_numpy\<close>:
  \<^verbatim>\<open>accum = accum * momentum - g * lr; var += (accum * momentum - g * lr); return var, accum\<close>.
\<close>

definition update_nesterov_momentum_numpy :: "rat \<Rightarrow> rat \<Rightarrow> rat \<Rightarrow> rat \<Rightarrow> rat \<Rightarrow> rat \<times> rat" where
  "update_nesterov_momentum_numpy var accum g lr m =
     (let accum' = accum * m - g * lr;
          var' = var + (accum' * m - g * lr)
      in (var', accum'))"

text \<open>The optimizer of \<^verbatim>\<open>testBasic\<close>: learning rate 2.0, momentum 0.9, no decay.\<close>

definition mom_opt :: hyperparameters where
  "mom_opt = \<lparr>learning_rate = Constant 2, decay = 0, momentum = 9 / 10, nesterov = False\<rparr>"








section \<open>Sequence preprocessing: Python values\<close>

text \<open>
  The exceptions that \<^verbatim>\<open>keras/preprocessing/sequence.py\<close> raises, or that the Python and
  NumPy operations it calls raise, are values of the model.
\<close>

datatype error = ValueError | IndexError | TypeError | ZeroDivisionError

text \<open>\<^verbatim>\<open>xs[i]\<close> on a list or a one-dimensional array: a negative index counts from the end.\<close>

definition py_index :: "'a list \<Rightarrow> int \<Rightarrow> error + 'a" where
  "py_index xs i =
     (if 0 \<le> i \<and> i < int (length xs) then Inr (xs ! nat i)
      else if - int (length xs) \<le> i \<and> i < 0 then Inr (xs ! nat (int (length xs) + i))
      else Inl IndexError)"




section \<open>Sequence preprocessing: \<^verbatim>\<open>pad_sequences\<close>\<close>

text \<open>
  \<^verbatim>\<open>pad_sequences(sequences, maxlen, dtype, padding, truncating, value)\<close> for sequences of scalars
  with the default numeric \<^verbatim>\<open>dtype\<close> (the sample shape is \<^verbatim>\<open>()\<close>, so the shape check and the
  check of a text \<^verbatim>\<open>value\<close> against \<^verbatim>\<open>dtype\<close> pass); elements are unbounded integers, the cast
  to \<^verbatim>\<open>int32\<close> is not modelled.

  \<open>assign_row\<close> is the assignment \<^verbatim>\<open>x[idx, :len(trunc)] = trunc\<close> (post) or
  \<^verbatim>\<open>x[idx, -len(trunc):] = trunc\<close> (pre) into a row of \<open>maxlen\<close> cells holding \<open>value\<close>. When
  \<open>trunc\<close> is longer than the row, the slice is the whole row and NumPy broadcasts a single
  element, and raises \<^verbatim>\<open>ValueError\<close> for more than one. \<^verbatim>\<open>x[idx, -0:]\<close> is the whole row
  as well.
\<close>

definition assign_row :: "string \<Rightarrow> int \<Rightarrow> nat \<Rightarrow> int list \<Rightarrow> error + int list" where
  "assign_row padding value maxlen trunc =
     (let k = length trunc in
      if padding = ''post'' then
        (if k \<le> maxlen then Inr (trunc @ replicate (maxlen - k) value)
         else if k = 1 then Inr (replicate maxlen (hd trunc))
         else Inl ValueError)
      else if padding = ''pre'' then
        (if k = 0 then (if maxlen = 0 then Inr [] else Inl ValueError)
         else if k \<le> maxlen then Inr (replicate (maxlen - k) value @ trunc)
         else if k = 1 then Inr (replicate maxlen (hd trunc))
         else Inl ValueError)
      else Inl ValueError)"

text \<open>
  One iteration of the main loop. An empty sequence is skipped before \<^verbatim>\<open>truncating\<close> is looked
  at. \<^verbatim>\<open>s[-maxlen:]\<close> is the whole of \<open>s\<close> when \<open>maxlen\<close> is 0.
\<close>

definition pad_sequence :: "string \<Rightarrow> string \<Rightarrow> int \<Rightarrow> nat \<Rightarrow> int list \<Rightarrow> error + int list" where
  "pad_sequence padding truncating value maxlen s =
     (if s = [] then Inr (replicate maxlen value)
      else if truncating = ''pre'' then
        assign_row padding value maxlen (if maxlen = 0 then s else drop (length s - maxlen) s)
      else if truncating = ''post'' then
        assign_row padding value maxlen (take maxlen s)
      else Inl ValueError)"

fun pad_loop :: "string \<Rightarrow> string \<Rightarrow> int \<Rightarrow> nat \<Rightarrow> int list list \<Rightarrow> error + int list list" where
  "pad_loop padding truncating value maxlen [] = Inr []"
| "pad_loop padding truncating value maxlen (s # ss) =
     (case pad_sequence padding truncating value maxlen s of
        Inl e \<Rightarrow> Inl e
      | Inr r \<Rightarrow>
          (case pad_loop padding truncating value maxlen ss of
             Inl e \<Rightarrow> Inl e
           | Inr rs \<Rightarrow> Inr (r # rs)))"

text \<open>
  \<^verbatim>\<open>np.max(lengths)\<close> raises \<^verbatim>\<open>ValueError\<close> on an empty list, and \<^verbatim>\<open>np.full\<close> raises it for a
  negative \<open>maxlen\<close>.
\<close>

definition pad_sequences ::
  "int list list \<Rightarrow> int option \<Rightarrow> string \<Rightarrow> string \<Rightarrow> int \<Rightarrow> error + int list list" where
  "pad_sequences sequences maxlen padding truncating value =
     (case maxlen of
        None \<Rightarrow>
          if sequences = [] then Inl ValueError
          else pad_loop padding truncating value (Max (set (map length sequences))) sequences
      | Some m \<Rightarrow>
          if m < 0 then Inl ValueError
          else pad_loop padding truncating value (nat m) sequences)"


section \<open>Sequence preprocessing: \<^verbatim>\<open>TimeseriesGenerator\<close>\<close>

record ('a, 'b) timeseries_generator =
  tg_data :: "'a list"
  tg_targets :: "'b list"
  tg_length :: int
  tg_sampling_rate :: int
  tg_stride :: int
  tg_start_index :: int
  tg_end_index :: int
  tg_shuffle :: bool
  tg_reverse :: bool
  tg_batch_size :: int

text \<open>\<^verbatim>\<open>TimeseriesGenerator.__init__\<close>; \<open>end_index = None\<close> is the default.\<close>

definition TimeseriesGenerator ::
  "'a list \<Rightarrow> 'b list \<Rightarrow> int \<Rightarrow> int \<Rightarrow> int \<Rightarrow> int \<Rightarrow> int option \<Rightarrow> bool \<Rightarrow> bool \<Rightarrow> int \<Rightarrow>
   error + ('a, 'b) timeseries_generator" where
  "TimeseriesGenerator data targets length' sampling_rate stride start_index end_index
     shuffle reverse batch_size =
     (if length data \<noteq> length targets then Inl ValueError
      else
        let self_start_index = start_index + length';
            self_end_index = (case end_index of None \<Rightarrow> int (length data) - 1 | Some e \<Rightarrow> e)
        in if self_start_index > self_end_index then Inl ValueError
           else Inr \<lparr>tg_data = data, tg_targets = targets, tg_length = length',
                     tg_sampling_rate = sampling_rate, tg_stride = stride,
                     tg_start_index = self_start_index, tg_end_index = self_end_index,
                     tg_shuffle = shuffle, tg_reverse = reverse, tg_batch_size = batch_size\<rparr>)"

text \<open>\<^verbatim>\<open>TimeseriesGenerator.__len__\<close>; \<^verbatim>\<open>//\<close> is floor division and raises on a zero divisor.\<close>

definition len :: "('a, 'b) timeseries_generator \<Rightarrow> error + int" where
  "len self =
     (if tg_batch_size self * tg_stride self = 0 then Inl ZeroDivisionError
      else Inr ((tg_end_index self - tg_start_index self + tg_batch_size self * tg_stride self)
                  div (tg_batch_size self * tg_stride self)))"




text \<open>
  \<^verbatim>\<open>TimeseriesGenerator.get_config\<close>. \<^verbatim>\<open>json.dumps\<close> is outside the repository and enters as the
  two encoders, which give \<open>None\<close> where \<^verbatim>\<open>json.dumps\<close> raises \<^verbatim>\<open>TypeError\<close>.
\<close>

record config =
  cfg_data :: string
  cfg_targets :: string
  cfg_length :: int
  cfg_sampling_rate :: int
  cfg_stride :: int
  cfg_start_index :: int
  cfg_end_index :: int
  cfg_shuffle :: bool
  cfg_reverse :: bool
  cfg_batch_size :: int

definition get_config ::
  "('a list \<Rightarrow> string option) \<Rightarrow> ('b list \<Rightarrow> string option) \<Rightarrow> ('a, 'b) timeseries_generator \<Rightarrow>
   error + config" where
  "get_config dumps_data dumps_targets self =
     (case dumps_data (tg_data self) of
        None \<Rightarrow> Inl TypeError
      | Some json_data \<Rightarrow>
          (case dumps_targets (tg_targets self) of
             None \<Rightarrow> Inl TypeError
           | Some json_targets \<Rightarrow>
               Inr \<lparr>cfg_data = json_data, cfg_targets = json_targets,
                     cfg_length = tg_length self, cfg_sampling_rate = tg_sampling_rate self,
                     cfg_stride = tg_stride self, cfg_start_index = tg_start_index self,
                     cfg_end_index = tg_end_index self, cfg_shuffle = tg_shuffle self,
                     cfg_reverse = tg_reverse self, cfg_batch_size = tg_batch_size self\<rparr>))"


section \<open>Sequence preprocessing: \<^verbatim>\<open>make_sampling_table\<close>\<close>

text \<open>
  \<^verbatim>\<open>make_sampling_table(size, sampling_factor)\<close> over the real numbers (the source computes in
  double precision; rounding is not modelled). \<^verbatim>\<open>np.arange(size)\<close> is empty for \<open>size \<le> 0\<close>, and
  then \<^verbatim>\<open>rank[0] = 1\<close> raises \<^verbatim>\<open>IndexError\<close>.
\<close>

definition make_sampling_table :: "int \<Rightarrow> real \<Rightarrow> error + real list" where
  "make_sampling_table size' sampling_factor =
     (let gamma = 577 / 1000;
          rank = map real_of_int [0..size' - 1]
      in if rank = [] then Inl IndexError
         else
           let rank = rank[0 := 1];
               inv_fq = map (\<lambda>r. r * (ln r + gamma) + 5 / 10 - 1 / (12 * r)) rank;
               f = map (\<lambda>x. sampling_factor * x) inv_fq
           in Inr (map (\<lambda>x. min 1 (x / sqrt x)) f))"

text \<open>
  The specification's wording of the same table (section 4.3): the approximate inverse
  frequency of rank \<open>r\<close>, and the probability \<open>p(r)\<close>.
\<close>

definition spec_inverse_frequency :: "real \<Rightarrow> real" where
  "spec_inverse_frequency r = r * (ln r + 577 / 1000) + 1 / 2 - 1 / (12 * r)"

definition spec_probability :: "real \<Rightarrow> real \<Rightarrow> real" where
  "spec_probability factor r =
     min 1 ((factor * spec_inverse_frequency r) / sqrt (factor * spec_inverse_frequency r))"


section \<open>Sequence preprocessing: \<^verbatim>\<open>skipgrams\<close>\<close>

text \<open>
  Python's \<^verbatim>\<open>random\<close> module is outside the repository and enters as a parameter: a generator
  state of some type \<open>'g\<close>, the state that \<^verbatim>\<open>random.seed(s)\<close> installs, and the step that
  produces one raw draw and the next state. The module's functions reduce raw draws to their
  range: \<^verbatim>\<open>randbelow(n)\<close> to \<open>[0, n)\<close>, \<^verbatim>\<open>random()\<close> to \<open>[0, 1)\<close>, \<^verbatim>\<open>randint(a, b)\<close> to
  \<open>[a, b]\<close> (raising \<^verbatim>\<open>ValueError\<close> on an empty range).
\<close>

record 'g random_module =
  random_seed :: "int \<Rightarrow> 'g"
  random_draw :: "'g \<Rightarrow> nat \<times> 'g"

definition randbelow :: "'g random_module \<Rightarrow> nat \<Rightarrow> 'g \<Rightarrow> nat \<times> 'g" where
  "randbelow R n g = (case random_draw R g of (r, g') \<Rightarrow> (r mod n, g'))"

definition random_random :: "'g random_module \<Rightarrow> 'g \<Rightarrow> rat \<times> 'g" where
  "random_random R g =
     (case random_draw R g of (r, g') \<Rightarrow> (rat_of_nat (r mod 2 ^ 53) / 2 ^ 53, g'))"

definition random_randint :: "'g random_module \<Rightarrow> int \<Rightarrow> int \<Rightarrow> 'g \<Rightarrow> error + (int \<times> 'g)" where
  "random_randint R a b g =
     (if b < a then Inl ValueError
      else case randbelow R (nat (b - a + 1)) g of (r, g') \<Rightarrow> Inr (a + int r, g'))"

text \<open>
  \<^verbatim>\<open>random.shuffle(x)\<close>: \<^verbatim>\<open>for i in reversed(range(1, len(x))): j = randbelow(i + 1);
  x[i], x[j] = x[j], x[i]\<close>.
\<close>

fun shuffle_loop :: "'g random_module \<Rightarrow> nat \<Rightarrow> 'a list \<Rightarrow> 'g \<Rightarrow> 'a list \<times> 'g" where
  "shuffle_loop R 0 x g = (x, g)"
| "shuffle_loop R (Suc i) x g =
     (case randbelow R (Suc i + 1) g of
        (j, g') \<Rightarrow> shuffle_loop R i (x[Suc i := x ! j, j := x ! Suc i]) g')"

definition random_shuffle :: "'g random_module \<Rightarrow> 'a list \<Rightarrow> 'g \<Rightarrow> 'a list \<times> 'g" where
  "random_shuffle R x g = shuffle_loop R (length x - 1) x g"

text \<open>
  A label is the scalar 0 or 1, or with \<^verbatim>\<open>categorical\<close> the list [1,0] or [0,1]. A couple
  \<^verbatim>\<open>[wi, wj]\<close> is a pair.
\<close>

datatype label = Scalar int | Categorical "int list"

definition positive_label :: "bool \<Rightarrow> label" where
  "positive_label categorical = (if categorical then Categorical [0, 1] else Scalar 1)"

definition negative_label :: "bool \<Rightarrow> label" where
  "negative_label categorical = (if categorical then Categorical [1, 0] else Scalar 0)"

text \<open>
  The inner loop of \<^verbatim>\<open>skipgrams\<close> for the position \<open>i\<close> of a word \<open>wi\<close>: the couples
  \<^verbatim>\<open>[wi, wj]\<close> for the positions \<open>j \<noteq> i\<close> of the window whose word \<open>wj\<close> is not 0.
\<close>

definition window_couples :: "int list \<Rightarrow> int \<Rightarrow> nat \<Rightarrow> (int \<times> int) list" where
  "window_couples sequence window_size i =
     (let wi = sequence ! i;
          window_start = max 0 (int i - window_size);
          window_end = min (int (length sequence)) (int i + window_size + 1)
      in map (\<lambda>j. (wi, sequence ! nat j))
           (filter (\<lambda>j. j \<noteq> int i \<and> sequence ! nat j \<noteq> 0) [window_start..window_end - 1]))"

text \<open>
  The outer loop over the positions \<open>i\<close>: a word 0 is skipped; with a sampling table the word is
  skipped when \<^verbatim>\<open>sampling_table[wi] < random.random()\<close>. Every positive couple gets the positive
  label, so the labels of this loop are as many positive labels as there are couples.
\<close>

fun positive_loop ::
  "'g random_module \<Rightarrow> rat list option \<Rightarrow> int list \<Rightarrow> int \<Rightarrow> nat list \<Rightarrow> 'g \<Rightarrow>
   error + ((int \<times> int) list \<times> 'g)" where
  "positive_loop R sampling_table sequence window_size [] g = Inr ([], g)"
| "positive_loop R sampling_table sequence window_size (i # rest) g =
     (if sequence ! i = 0 then positive_loop R sampling_table sequence window_size rest g
      else
        (case sampling_table of
           None \<Rightarrow>
             (case positive_loop R sampling_table sequence window_size rest g of
                Inl e \<Rightarrow> Inl e
              | Inr (couples, g') \<Rightarrow> Inr (window_couples sequence window_size i @ couples, g'))
         | Some table \<Rightarrow>
             (case py_index table (sequence ! i) of
                Inl e \<Rightarrow> Inl e
              | Inr p \<Rightarrow>
                  (case random_random R g of
                     (u, g1) \<Rightarrow>
                       if p < u then positive_loop R sampling_table sequence window_size rest g1
                       else
                         (case positive_loop R sampling_table sequence window_size rest g1 of
                            Inl e \<Rightarrow> Inl e
                          | Inr (couples, g') \<Rightarrow>
                              Inr (window_couples sequence window_size i @ couples, g'))))))"

text \<open>
  The negative couples \<^verbatim>\<open>[words[i % len(words)], random.randint(1, vocabulary_size - 1)]\<close> for
  \<open>i\<close> in \<^verbatim>\<open>range(num_negative_samples)\<close>.
\<close>

fun negative_loop ::
  "'g random_module \<Rightarrow> int list \<Rightarrow> int \<Rightarrow> nat list \<Rightarrow> 'g \<Rightarrow> error + ((int \<times> int) list \<times> 'g)" where
  "negative_loop R words vocabulary_size [] g = Inr ([], g)"
| "negative_loop R words vocabulary_size (i # rest) g =
     (if words = [] then Inl ZeroDivisionError
      else
        (case random_randint R 1 (vocabulary_size - 1) g of
           Inl e \<Rightarrow> Inl e
         | Inr (w, g1) \<Rightarrow>
             (case negative_loop R words vocabulary_size rest g1 of
                Inl e \<Rightarrow> Inl e
              | Inr (couples, g') \<Rightarrow> Inr ((words ! (i mod length words), w) # couples, g'))))"

text \<open>
  \<^verbatim>\<open>skipgrams\<close>, from the state \<open>g\<close> of the generator, in two stages. The first collects the
  positive couples and, when \<^verbatim>\<open>negative_samples > 0\<close>, appends the negative ones;
  \<^verbatim>\<open>negative_samples\<close> is a rational, and \<^verbatim>\<open>int(len(labels) * negative_samples)\<close> its integer
  part. It returns the couples, the labels and the generator's state.
\<close>

definition skipgrams_samples ::
  "'g random_module \<Rightarrow> int list \<Rightarrow> int \<Rightarrow> int \<Rightarrow> rat \<Rightarrow> bool \<Rightarrow> rat list option \<Rightarrow> 'g \<Rightarrow>
   error + ((int \<times> int) list \<times> label list \<times> 'g)" where
  "skipgrams_samples R sequence vocabulary_size window_size negative_samples categorical
     sampling_table g =
     (case positive_loop R sampling_table sequence window_size [0..<length sequence] g of
        Inl e \<Rightarrow> Inl e
      | Inr (couples, g1) \<Rightarrow>
          (let labels = replicate (length couples) (positive_label categorical) in
           if 0 < negative_samples then
             (let num_negative_samples = nat \<lfloor>rat_of_nat (length labels) * negative_samples\<rfloor> in
              case random_shuffle R (map fst couples) g1 of
                (words, g2) \<Rightarrow>
                  (case negative_loop R words vocabulary_size [0..<num_negative_samples] g2 of
                     Inl e \<Rightarrow> Inl e
                   | Inr (negatives, g3) \<Rightarrow>
                       Inr (couples @ negatives,
                            labels @ replicate num_negative_samples (negative_label categorical),
                            g3)))
           else Inr (couples, labels, g1)))"

text \<open>
  The second stage is the end of \<^verbatim>\<open>skipgrams\<close>: \<^verbatim>\<open>if shuffle: if seed is None: seed =
  random.randint(0, 10e6); random.seed(seed); random.shuffle(couples); random.seed(seed);
  random.shuffle(labels)\<close>.
\<close>

definition skipgrams ::
  "'g random_module \<Rightarrow> int list \<Rightarrow> int \<Rightarrow> int \<Rightarrow> rat \<Rightarrow> bool \<Rightarrow> bool \<Rightarrow> rat list option \<Rightarrow>
   int option \<Rightarrow> 'g \<Rightarrow> error + (((int \<times> int) list \<times> label list) \<times> 'g)" where
  "skipgrams R sequence vocabulary_size window_size negative_samples shuffle categorical
     sampling_table seed g =
     (case skipgrams_samples R sequence vocabulary_size window_size negative_samples categorical
             sampling_table g of
        Inl e \<Rightarrow> Inl e
      | Inr (couples, labels, g4) \<Rightarrow>
          if shuffle then
            (case (case seed of
                     None \<Rightarrow> random_randint R 0 10000000 g4
                   | Some s \<Rightarrow> Inr (s, g4)) of
               Inl e \<Rightarrow> Inl e
             | Inr (s, g5) \<Rightarrow>
                 (case random_shuffle R couples (random_seed R s) of
                    (couples', g6) \<Rightarrow>
                      (case random_shuffle R labels (random_seed R s) of
                         (labels', g7) \<Rightarrow> Inr ((couples', labels'), g7))))
          else Inr ((couples, labels), g4))"

text \<open>A small linear congruential generator, for evaluating \<open>skipgrams\<close> on concrete inputs.\<close>

definition lcg :: "nat random_module" where
  "lcg = \<lparr>random_seed = (\<lambda>s. nat \<bar>s\<bar>), random_draw = (\<lambda>g. (g, (5 * g + 3) mod 16))\<rparr>"


section \<open>Facts about the update rule\<close>

lemma effective_lr_mom_opt: "effective_lr mom_opt step = 2"
  by (simp add: effective_lr_def mom_opt_def)


lemma SGD_mom_opt: "SGD (Constant 2) 0 (9 / 10) False = Inr mom_opt"
  by (simp add: SGD_def mom_opt_def)

lemma apply_dense_nesterov_reference:
  assumes "momentum h \<noteq> 0" and "nesterov h"
  shows "apply_dense h step g v a =
         update_nesterov_momentum_numpy v a g (effective_lr h step) (momentum h)"
  using assms
  by (simp add: apply_dense_def update_nesterov_momentum_numpy_def Let_def algebra_simps)

lemma nesterov_minus_classical:
  "fst (update_nesterov_momentum_numpy v a g lr m) - (v + (m * a - lr * g)) =
   m * ((m - 1) * a - lr * g)"
  by (simp add: update_nesterov_momentum_numpy_def Let_def algebra_simps)

text \<open>
  C1. Classical momentum (momentum > 0, Nesterov off): every update sets the accumulator to
  \<open>momentum * accumulator - effective_lr step * gradient\<close> and adds the new accumulator to the
  variable. For the optimizer of \<^verbatim>\<open>testBasic\<close> (learning rate 2, momentum 9/10), constant
  gradient 1/10, variable 1 and accumulator 0, the accumulator is -1/5 after the first update
  and -19/50 after the second, and the variable is 21/50 after the second.
\<close>

theorem classical_momentum_update:
  "(\<forall>h step g v a. 0 < momentum h \<and> \<not> nesterov h \<longrightarrow>
      snd (apply_dense h step g v a) = momentum h * a - effective_lr h step * g \<and>
      fst (apply_dense h step g v a) = v + snd (apply_dense h step g v a)) \<and>
   SGD (Constant 2) 0 (9 / 10) False = Inr mom_opt \<and>
   snd (apply_gradients mom_opt 0 [1 / 10] (1, 0)) = - (2 / 10) \<and>
   snd (apply_gradients mom_opt 0 [1 / 10, 1 / 10] (1, 0)) = 9 / 10 * - (2 / 10) - 2 * (1 / 10) \<and>
   snd (apply_gradients mom_opt 0 [1 / 10, 1 / 10] (1, 0)) = - (38 / 100) \<and>
   fst (apply_gradients mom_opt 0 [1 / 10, 1 / 10] (1, 0)) = 1 - 2 / 10 - 38 / 100 \<and>
   fst (apply_gradients mom_opt 0 [1 / 10, 1 / 10] (1, 0)) = 42 / 100"
proof -
  have general: "\<forall>h step g v a. 0 < momentum h \<and> \<not> nesterov h \<longrightarrow>
      snd (apply_dense h step g v a) = momentum h * a - effective_lr h step * g \<and>
      fst (apply_dense h step g v a) = v + snd (apply_dense h step g v a)"
    by (simp add: apply_dense_def Let_def)
  have m: "momentum mom_opt = 9 / 10" "\<not> nesterov mom_opt"
    by (simp_all add: mom_opt_def)
  have one: "apply_dense mom_opt 0 (1 / 10) 1 0 = (4 / 5, - (1 / 5))"
    by (simp add: apply_dense_def Let_def m effective_lr_mom_opt)
  have two: "apply_dense mom_opt (Suc 0) (1 / 10) (4 / 5) (- (1 / 5)) = (21 / 50, - (19 / 50))"
    by (simp add: apply_dense_def Let_def m effective_lr_mom_opt)
  show ?thesis
    using general by (simp add: SGD_mom_opt one two)
qed

theorem classical_momentum_update_witness:
  "0 < momentum mom_opt \<and> \<not> nesterov mom_opt \<and>
   apply_dense mom_opt 0 (1 / 10) 1 0 = (4 / 5, - (1 / 5))"
proof -
  have m: "0 < momentum mom_opt \<and> \<not> nesterov mom_opt"
    by (simp add: mom_opt_def)
  have "snd (apply_dense mom_opt 0 (1 / 10) 1 0) =
          momentum mom_opt * 0 - effective_lr mom_opt 0 * (1 / 10) \<and>
        fst (apply_dense mom_opt 0 (1 / 10) 1 0) = 1 + snd (apply_dense mom_opt 0 (1 / 10) 1 0)"
    using classical_momentum_update m by blast
  then have "snd (apply_dense mom_opt 0 (1 / 10) 1 0) = - (1 / 5) \<and>
             fst (apply_dense mom_opt 0 (1 / 10) 1 0) = 4 / 5"
    by (simp add: effective_lr_mom_opt)
  then show ?thesis
    using m by (simp add: prod_eq_iff)
qed

text \<open>
  C2 (as stated, refuted). With momentum 1/2, learning rate 1, gradient 1 and the common state
  variable 0, accumulator -2 (the accumulator reached from 0 by one update with gradient 2),
  the Nesterov update and the classical update give the same new variable and the same new
  accumulator, and they keep doing so update after update.
\<close>

theorem nesterov_equals_classical_counterexample:
  "(0::rat) < 1 / 2 \<and> (0::rat) < 1 \<and> (1::rat) \<noteq> 0 \<and>
   snd (apply_dense \<lparr>learning_rate = Constant 1, decay = 0, momentum = 1 / 2, nesterov = False\<rparr>
          0 2 0 0) = - 2 \<and>
   update_nesterov_momentum_numpy 0 (- 2) 1 1 (1 / 2) = (- 2, - 2) \<and>
   apply_dense \<lparr>learning_rate = Constant 1, decay = 0, momentum = 1 / 2, nesterov = True\<rparr>
     0 1 0 (- 2) = (- 2, - 2) \<and>
   apply_dense \<lparr>learning_rate = Constant 1, decay = 0, momentum = 1 / 2, nesterov = False\<rparr>
     0 1 0 (- 2) = (- 2, - 2) \<and>
   apply_gradients \<lparr>learning_rate = Constant 1, decay = 0, momentum = 1 / 2, nesterov = True\<rparr>
     0 [1, 1, 1] (0, - 2) =
   apply_gradients \<lparr>learning_rate = Constant 1, decay = 0, momentum = 1 / 2, nesterov = False\<rparr>
     0 [1, 1, 1] (0, - 2)"
  by (simp add: apply_dense_def update_nesterov_momentum_numpy_def effective_lr_def Let_def)

text \<open>
  C2 (amended). For momentum > 0 the Nesterov update of the model is the reference
  computation of the test file; it produces the same new accumulator as the classical update,
  and its new variable exceeds the classical one by exactly
  \<open>momentum * ((momentum - 1) * accumulator - effective_lr step * gradient)\<close>. Hence the two new
  variables differ if and only if \<open>(momentum - 1) * accumulator \<noteq> effective_lr step * gradient\<close>;
  in particular they differ on every update from a zero accumulator with a positive learning
  rate and a nonzero gradient.
\<close>

theorem nesterov_lookahead_difference:
  assumes "0 < momentum h"
  shows "apply_dense (h\<lparr>nesterov := True\<rparr>) step g v a =
           update_nesterov_momentum_numpy v a g (effective_lr h step) (momentum h) \<and>
         snd (apply_dense (h\<lparr>nesterov := True\<rparr>) step g v a) =
           snd (apply_dense (h\<lparr>nesterov := False\<rparr>) step g v a) \<and>
         fst (apply_dense (h\<lparr>nesterov := True\<rparr>) step g v a) -
           fst (apply_dense (h\<lparr>nesterov := False\<rparr>) step g v a) =
           momentum h * ((momentum h - 1) * a - effective_lr h step * g) \<and>
         (fst (apply_dense (h\<lparr>nesterov := True\<rparr>) step g v a) \<noteq>
            fst (apply_dense (h\<lparr>nesterov := False\<rparr>) step g v a)) =
           ((momentum h - 1) * a \<noteq> effective_lr h step * g) \<and>
         (a = 0 \<and> 0 < effective_lr h step \<and> g \<noteq> 0 \<longrightarrow>
            fst (apply_dense (h\<lparr>nesterov := True\<rparr>) step g v a) \<noteq>
            fst (apply_dense (h\<lparr>nesterov := False\<rparr>) step g v a))"
proof -
  let ?N = "apply_dense (h\<lparr>nesterov := True\<rparr>) step g v a"
  let ?C = "apply_dense (h\<lparr>nesterov := False\<rparr>) step g v a"
  let ?lr = "effective_lr h step"
  let ?m = "momentum h"
  have m: "?m \<noteq> 0" using assms by simp
  have lrN: "effective_lr (h\<lparr>nesterov := True\<rparr>) step = ?lr"
    and lrC: "effective_lr (h\<lparr>nesterov := False\<rparr>) step = ?lr"
    by (simp_all add: effective_lr_def split: lr_source.splits)
  have N: "?N = update_nesterov_momentum_numpy v a g ?lr ?m"
    using apply_dense_nesterov_reference [of "h\<lparr>nesterov := True\<rparr>" step g v a] m
    by (simp add: lrN)
  have C: "?C = (v + (?m * a - ?lr * g), ?m * a - ?lr * g)"
    using m by (simp add: apply_dense_def Let_def lrC)
  have acc: "snd ?N = snd ?C"
    by (simp add: N C update_nesterov_momentum_numpy_def Let_def algebra_simps)
  have diff: "fst ?N - fst ?C = ?m * ((?m - 1) * a - ?lr * g)"
    using nesterov_minus_classical [of v a g ?lr ?m] by (simp add: N C)
  have iff: "(fst ?N \<noteq> fst ?C) = ((?m - 1) * a \<noteq> ?lr * g)"
  proof -
    have "(fst ?N = fst ?C) = (fst ?N - fst ?C = 0)" by simp
    also have "\<dots> = (?m * ((?m - 1) * a - ?lr * g) = 0)" by (simp only: diff)
    also have "\<dots> = ((?m - 1) * a = ?lr * g)" using m by simp
    finally show ?thesis by simp
  qed
  have first: "a = 0 \<and> 0 < ?lr \<and> g \<noteq> 0 \<longrightarrow> fst ?N \<noteq> fst ?C"
    by (simp only: iff) auto
  show ?thesis
    using N acc diff iff first by blast
qed

theorem nesterov_lookahead_difference_witness:
  "0 < momentum mom_opt \<and>
   fst (apply_dense (mom_opt\<lparr>nesterov := True\<rparr>) 0 (1 / 10) 1 0) = 31 / 50 \<and>
   fst (apply_dense (mom_opt\<lparr>nesterov := False\<rparr>) 0 (1 / 10) 1 0) = 4 / 5 \<and>
   fst (apply_dense (mom_opt\<lparr>nesterov := True\<rparr>) 0 (1 / 10) 1 0) \<noteq>
   fst (apply_dense (mom_opt\<lparr>nesterov := False\<rparr>) 0 (1 / 10) 1 0)"
proof -
  have m: "0 < momentum mom_opt"
    by (simp add: mom_opt_def)
  have lr: "(0::rat) = 0 \<and> 0 < effective_lr mom_opt 0 \<and> (1 / 10 :: rat) \<noteq> 0"
    by (simp add: effective_lr_mom_opt)
  have "fst (apply_dense (mom_opt\<lparr>nesterov := True\<rparr>) 0 (1 / 10) 1 0) \<noteq>
        fst (apply_dense (mom_opt\<lparr>nesterov := False\<rparr>) 0 (1 / 10) 1 0)"
    using nesterov_lookahead_difference [OF m, of 0 "1 / 10" 1 0] lr by blast
  moreover have "fst (apply_dense (mom_opt\<lparr>nesterov := True\<rparr>) 0 (1 / 10) 1 0) = 31 / 50"
    by (simp add: apply_dense_def effective_lr_def mom_opt_def Let_def)
  moreover have "fst (apply_dense (mom_opt\<lparr>nesterov := False\<rparr>) 0 (1 / 10) 1 0) = 4 / 5"
    by (simp add: apply_dense_def effective_lr_def mom_opt_def Let_def)
  ultimately show ?thesis using m by blast
qed

text \<open>
  C3. Constructing the optimizer fails exactly when the momentum coefficient lies outside
  [0,1], or is 0 while the Nesterov flag is set; for momentum in [0,1] without Nesterov, and
  for momentum in (0,1] with Nesterov, it succeeds and records the hyperparameters.
\<close>

theorem SGD_validation:
  "((\<exists>e. SGD lr d m n = Inl e) = (m < 0 \<or> 1 < m \<or> (m = 0 \<and> n))) \<and>
   ((0 \<le> m \<and> m \<le> 1 \<and> \<not> n \<or> 0 < m \<and> m \<le> 1 \<and> n) =
      (SGD lr d m n = Inr \<lparr>learning_rate = lr, decay = d, momentum = m, nesterov = n\<rparr>)) \<and>
   ((\<exists>e. SGD lr d m n = Inl e) \<or> (\<exists>h. SGD lr d m n = Inr h))"
  by (auto simp add: SGD_def)

theorem SGD_validation_witness:
  "SGD (Constant 1) 0 2 False = Inl MomentumOutOfRange \<and>
   SGD (Constant 1) 0 0 True = Inl NesterovWithoutMomentum \<and>
   (\<exists>e. SGD (Constant 1) 0 2 False = Inl e)"
proof -
  have "(\<exists>e. SGD (Constant 1) 0 2 False = Inl e) = ((2::rat) < 0 \<or> (1::rat) < 2 \<or> ((2::rat) = 0 \<and> False))"
    using SGD_validation [of "Constant 1" 0 2 False] by blast
  then have "\<exists>e. SGD (Constant 1) 0 2 False = Inl e" by simp
  then show ?thesis by (simp add: SGD_def)
qed




section \<open>Facts about \<^verbatim>\<open>pad_sequences\<close>\<close>

text \<open>
  C7. The worked examples of the docstring: with the defaults (no \<open>maxlen\<close>, padding and
  truncating \<^verbatim>\<open>'pre'\<close>, value 0) the sequences [1], [2,3], [4,5,6] become [0,0,1], [0,2,3],
  [4,5,6]; with value -1 they become [-1,-1,1], [-1,2,3], [4,5,6]; with padding \<^verbatim>\<open>'post'\<close>
  they become [1,0,0], [2,3,0], [4,5,6]; with \<open>maxlen\<close> 2 they become [0,1], [2,3], [5,6].
\<close>

theorem pad_sequences_examples:
  "pad_sequences [[1], [2, 3], [4, 5, 6]] None ''pre'' ''pre'' 0 =
     Inr [[0, 0, 1], [0, 2, 3], [4, 5, 6]] \<and>
   pad_sequences [[1], [2, 3], [4, 5, 6]] None ''pre'' ''pre'' (- 1) =
     Inr [[- 1, - 1, 1], [- 1, 2, 3], [4, 5, 6]] \<and>
   pad_sequences [[1], [2, 3], [4, 5, 6]] None ''post'' ''pre'' 0 =
     Inr [[1, 0, 0], [2, 3, 0], [4, 5, 6]] \<and>
   pad_sequences [[1], [2, 3], [4, 5, 6]] (Some 2) ''pre'' ''pre'' 0 =
     Inr [[0, 1], [2, 3], [5, 6]]"
proof -
  have three: "Max (set (map length [[1], [2, 3], [4, 5, 6 :: int]])) = 3"
    by simp
  show ?thesis
    unfolding pad_sequences_def three
    by (simp add: pad_sequence_def assign_row_def Let_def numeral_2_eq_2 numeral_3_eq_3)
qed


section \<open>Facts about \<^verbatim>\<open>TimeseriesGenerator\<close>\<close>

text \<open>
  C10. A generator constructed with \<open>start_index = s\<close> and \<open>length = L\<close> reports \<open>s + L\<close> under
  the key \<^verbatim>\<open>'start_index'\<close> of its configuration (and \<open>L\<close> under \<^verbatim>\<open>'length'\<close>). Constructing a
  generator again from the reported values, on the same data and targets, is refused when
  \<open>s + 2 * L\<close> exceeds the end index, and otherwise gives the same generator with its first
  usable end-point moved from \<open>s + L\<close> to \<open>s + 2 * L\<close>.
\<close>

theorem get_config_start_index_shifted:
  assumes "TimeseriesGenerator data targets L sr st s e sh rv bs = Inr self"
    and "get_config dumps_data dumps_targets self = Inr c"
  shows "cfg_start_index c = s + L \<and> cfg_length c = L \<and> tg_start_index self = s + L \<and>
         TimeseriesGenerator data targets (cfg_length c) (cfg_sampling_rate c) (cfg_stride c)
           (cfg_start_index c) (Some (cfg_end_index c)) (cfg_shuffle c) (cfg_reverse c)
           (cfg_batch_size c) =
         (if s + 2 * L \<le> cfg_end_index c
          then Inr (self\<lparr>tg_start_index := s + 2 * L\<rparr>) else Inl ValueError)"
proof -
  from assms(1) have len: "length data = length targets"
    by (auto simp add: TimeseriesGenerator_def split: if_splits)
  from assms(1) have self:
    "self = \<lparr>tg_data = data, tg_targets = targets, tg_length = L,
              tg_sampling_rate = sr, tg_stride = st,
              tg_start_index = s + L,
              tg_end_index = (case e of None \<Rightarrow> int (length data) - 1 | Some e' \<Rightarrow> e'),
              tg_shuffle = sh, tg_reverse = rv, tg_batch_size = bs\<rparr>"
    by (auto simp add: TimeseriesGenerator_def Let_def split: if_splits)
  from assms(2) have c:
    "cfg_length c = L" "cfg_sampling_rate c = sr" "cfg_stride c = st"
    "cfg_start_index c = s + L" "cfg_end_index c = tg_end_index self"
    "cfg_shuffle c = sh" "cfg_reverse c = rv" "cfg_batch_size c = bs"
    by (auto simp add: get_config_def self split: option.splits)
  show ?thesis
    unfolding c by (simp add: TimeseriesGenerator_def Let_def len self)
qed

theorem get_config_start_index_shifted_witness:
  "TimeseriesGenerator [0, 1, 2, 3, 4, 5 :: int] [0, 1, 2, 3, 4, 5 :: int] 2 1 1 1 None False False 1 =
     Inr \<lparr>tg_data = [0, 1, 2, 3, 4, 5], tg_targets = [0, 1, 2, 3, 4, 5], tg_length = 2,
           tg_sampling_rate = 1, tg_stride = 1, tg_start_index = 3, tg_end_index = 5,
           tg_shuffle = False, tg_reverse = False, tg_batch_size = 1\<rparr> \<and>
   get_config (\<lambda>d. Some ''[0, 1, 2, 3, 4, 5]'') (\<lambda>t. Some ''[0, 1, 2, 3, 4, 5]'')
     \<lparr>tg_data = [0, 1, 2, 3, 4, 5 :: int], tg_targets = [0, 1, 2, 3, 4, 5 :: int], tg_length = 2,
       tg_sampling_rate = 1, tg_stride = 1, tg_start_index = 3, tg_end_index = 5,
       tg_shuffle = False, tg_reverse = False, tg_batch_size = 1\<rparr> =
     Inr \<lparr>cfg_data = ''[0, 1, 2, 3, 4, 5]'', cfg_targets = ''[0, 1, 2, 3, 4, 5]'', cfg_length = 2,
           cfg_sampling_rate = 1, cfg_stride = 1, cfg_start_index = 3, cfg_end_index = 5,
           cfg_shuffle = False, cfg_reverse = False, cfg_batch_size = 1\<rparr> \<and>
   TimeseriesGenerator [0, 1, 2, 3, 4, 5 :: int] [0, 1, 2, 3, 4, 5 :: int] 2 1 1 3 (Some 5) False False 1 =
     Inr \<lparr>tg_data = [0, 1, 2, 3, 4, 5], tg_targets = [0, 1, 2, 3, 4, 5], tg_length = 2,
           tg_sampling_rate = 1, tg_stride = 1, tg_start_index = 5, tg_end_index = 5,
           tg_shuffle = False, tg_reverse = False, tg_batch_size = 1\<rparr>"
proof -
  let ?d = "[0, 1, 2, 3, 4, 5 :: int]"
  let ?self = "\<lparr>tg_data = ?d, tg_targets = ?d, tg_length = 2,
       tg_sampling_rate = 1, tg_stride = 1, tg_start_index = 3, tg_end_index = 5,
       tg_shuffle = False, tg_reverse = False, tg_batch_size = 1\<rparr>"
  let ?c = "\<lparr>cfg_data = ''[0, 1, 2, 3, 4, 5]'', cfg_targets = ''[0, 1, 2, 3, 4, 5]'', cfg_length = 2,
           cfg_sampling_rate = 1, cfg_stride = 1, cfg_start_index = 3, cfg_end_index = 5,
           cfg_shuffle = False, cfg_reverse = False, cfg_batch_size = 1\<rparr>"
  have a: "TimeseriesGenerator ?d ?d 2 1 1 1 None False False 1 = Inr ?self"
    by (simp add: TimeseriesGenerator_def Let_def)
  have b: "get_config (\<lambda>d. Some ''[0, 1, 2, 3, 4, 5]'') (\<lambda>t. Some ''[0, 1, 2, 3, 4, 5]'') ?self = Inr ?c"
    by (simp add: get_config_def)
  from get_config_start_index_shifted [OF a b]
  have "TimeseriesGenerator ?d ?d 2 1 1 3 (Some 5) False False 1 = Inr (?self\<lparr>tg_start_index := 5\<rparr>)"
    by simp
  then show ?thesis
    using a b by simp
qed

























section \<open>Facts about \<^verbatim>\<open>make_sampling_table\<close>\<close>

lemma spec_inverse_frequency_mono:
  assumes "1 \<le> r1" and "r1 \<le> r2"
  shows "spec_inverse_frequency r1 \<le> spec_inverse_frequency r2"
proof -
  have pos: "0 < r1" "0 < r2" using assms by simp_all
  have ln: "ln r1 \<le> ln r2" using assms pos by simp
  have ln0: "0 \<le> ln r1" using assms by simp
  have "r1 * (ln r1 + 577 / 1000) \<le> r2 * (ln r2 + 577 / 1000)"
    using assms ln ln0 pos by (intro mult_mono) simp_all
  moreover have "1 / (12 * r2) \<le> 1 / (12 * r1)"
    using assms pos by (simp add: frac_le)
  ultimately show ?thesis
    by (simp add: spec_inverse_frequency_def)
qed

lemma spec_inverse_frequency_pos:
  assumes "1 \<le> r"
  shows "0 < spec_inverse_frequency r"
proof -
  have "0 < spec_inverse_frequency 1"
    by (simp add: spec_inverse_frequency_def)
  also have "\<dots> \<le> spec_inverse_frequency r"
    using assms by (intro spec_inverse_frequency_mono) simp_all
  finally show ?thesis .
qed

lemma spec_probability_sqrt:
  assumes "0 < factor" and "1 \<le> r"
  shows "spec_probability factor r = min 1 (sqrt (factor * spec_inverse_frequency r))"
proof -
  have "0 \<le> factor * spec_inverse_frequency r"
    using assms spec_inverse_frequency_pos [OF assms(2)] by simp
  then show ?thesis
    by (simp add: spec_probability_def real_div_sqrt)
qed

lemma spec_probability_mono:
  assumes "0 < factor" and "1 \<le> r1" and "r1 \<le> r2"
  shows "spec_probability factor r1 \<le> spec_probability factor r2"
proof -
  have r2: "1 \<le> r2" using assms by simp
  have "factor * spec_inverse_frequency r1 \<le> factor * spec_inverse_frequency r2"
    using assms spec_inverse_frequency_mono [OF assms(2,3)] by simp
  then have "sqrt (factor * spec_inverse_frequency r1) \<le> sqrt (factor * spec_inverse_frequency r2)"
    by simp
  then show ?thesis
    unfolding spec_probability_sqrt [OF assms(1,2)] spec_probability_sqrt [OF assms(1) r2]
    by (simp add: min_def)
qed

lemma make_sampling_table_eq:
  assumes "1 \<le> size'"
  shows "make_sampling_table size' factor =
         Inr (map (\<lambda>r. spec_probability factor (real (max 1 r))) [0..<nat size'])"
proof -
  let ?rank = "map real_of_int [0..size' - 1]"
  have len: "length ?rank = nat size'" using assms by simp
  have ne: "?rank \<noteq> []" using assms by simp
  have rank: "?rank[0 := 1] = map (\<lambda>r. real (max 1 r)) [0..<nat size']"
  proof (rule nth_equalityI)
    show "length (?rank[0 := 1]) = length (map (\<lambda>r. real (max 1 r)) [0..<nat size'])"
      using len by simp
  next
    fix i assume "i < length (?rank[0 := 1])"
    then have i: "i < nat size'" using len by simp
    then have "[0..size' - 1] ! i = int i" by simp
    then show "?rank[0 := 1] ! i = map (\<lambda>r. real (max 1 r)) [0..<nat size'] ! i"
      using i len by (cases i) (simp_all add: max_def)
  qed
  show ?thesis
    using ne
    by (simp add: make_sampling_table_def Let_def rank spec_probability_def
          spec_inverse_frequency_def comp_def)
qed


text \<open>
  C9. For every size of at least 2 and every positive sampling factor the table has \<open>size\<close>
  entries; entry \<open>r\<close> is \<open>min 1 (factor * f r' / sqrt (factor * f r'))\<close> with
  \<open>f r' = r' * (ln r' + 0.577) + 0.5 - 1 / (12 * r')\<close>, where \<open>r'\<close> is \<open>r\<close> with rank 0 replaced by
  rank 1; and the entries never decrease as the rank number grows, so that a more frequent
  rank never has a larger probability than a rarer one. (Over the real numbers.)
\<close>

theorem make_sampling_table_formula_monotone:
  assumes "2 \<le> size'" and "0 < factor"
  shows "\<exists>t. make_sampling_table size' factor = Inr t \<and> length t = nat size' \<and>
           (\<forall>r<nat size'. t ! r = spec_probability factor (real (max 1 r)) \<and>
              spec_probability factor (real (max 1 r)) =
                min 1 ((factor * (real (max 1 r) * (ln (real (max 1 r)) + 577 / 1000) + 1 / 2
                                   - 1 / (12 * real (max 1 r)))) /
                       sqrt (factor * (real (max 1 r) * (ln (real (max 1 r)) + 577 / 1000) + 1 / 2
                                   - 1 / (12 * real (max 1 r)))))) \<and>
           (\<forall>r1 r2. r1 \<le> r2 \<and> r2 < nat size' \<longrightarrow> t ! r1 \<le> t ! r2)"
proof -
  let ?t = "map (\<lambda>r. spec_probability factor (real (max 1 r))) [0..<nat size']"
  have tbl: "make_sampling_table size' factor = Inr ?t"
    using assms(1) by (intro make_sampling_table_eq) simp
  have entry: "\<forall>r<nat size'. ?t ! r = spec_probability factor (real (max 1 r)) \<and>
              spec_probability factor (real (max 1 r)) =
                min 1 ((factor * (real (max 1 r) * (ln (real (max 1 r)) + 577 / 1000) + 1 / 2
                                   - 1 / (12 * real (max 1 r)))) /
                       sqrt (factor * (real (max 1 r) * (ln (real (max 1 r)) + 577 / 1000) + 1 / 2
                                   - 1 / (12 * real (max 1 r)))))"
    by (simp add: spec_probability_def spec_inverse_frequency_def)
  have mono: "\<forall>r1 r2. r1 \<le> r2 \<and> r2 < nat size' \<longrightarrow> ?t ! r1 \<le> ?t ! r2"
  proof (intro allI impI)
    fix r1 r2 :: nat assume r: "r1 \<le> r2 \<and> r2 < nat size'"
    have "spec_probability factor (real (max 1 r1)) \<le> spec_probability factor (real (max 1 r2))"
      using r by (intro spec_probability_mono [OF assms(2)]) (simp_all add: max_def)
    then show "?t ! r1 \<le> ?t ! r2" using r by simp
  qed
  show ?thesis
    using tbl entry mono by (intro exI [of _ ?t]) simp
qed

theorem make_sampling_table_formula_monotone_witness:
  "(2::int) \<le> 3 \<and> (0::real) < 1 \<and>
   (\<exists>t. make_sampling_table 3 1 = Inr t \<and> length t = 3 \<and> t ! 0 = t ! 1 \<and> t ! 1 \<le> t ! 2)"
proof -
  obtain t where t: "make_sampling_table 3 1 = Inr t" "length t = nat 3"
    and entry: "\<forall>r<nat 3. t ! r = spec_probability 1 (real (max 1 r))"
    and mono: "\<forall>r1 r2. r1 \<le> r2 \<and> r2 < nat 3 \<longrightarrow> t ! r1 \<le> t ! r2"
    using make_sampling_table_formula_monotone [of 3 1] by auto
  from entry have "t ! 0 = t ! 1" by simp
  moreover from mono have "t ! 1 \<le> t ! 2" by simp
  ultimately show ?thesis using t by auto
qed


section \<open>Facts about \<^verbatim>\<open>skipgrams\<close>\<close>

lemma randbelow_less:
  assumes "0 < n"
  shows "fst (randbelow R n g) < n"
  using assms by (simp add: randbelow_def split: prod.splits)

lemma shuffle_loop_length:
  "length (fst (shuffle_loop R i x g)) = length x"
  by (induction i arbitrary: x g) (simp_all split: prod.splits)

lemma shuffle_loop_mset:
  assumes "i < length x \<or> i = 0"
  shows "mset (fst (shuffle_loop R i x g)) = mset x"
  using assms
proof (induction i arbitrary: x g)
  case 0
  then show ?case by simp
next
  case (Suc i)
  obtain j g' where j: "randbelow R (Suc (Suc i)) g = (j, g')" by (cases "randbelow R (Suc (Suc i)) g")
  have "fst (randbelow R (Suc (Suc i)) g) < Suc (Suc i)" by (rule randbelow_less) simp
  then have jlt: "j < length x" using Suc.prems j by simp
  have i: "Suc i < length x" using Suc.prems by simp
  let ?y = "x[Suc i := x ! j, j := x ! Suc i]"
  have "mset ?y = mset x" using jlt i by (rule mset_swap)
  moreover have "mset (fst (shuffle_loop R i ?y g')) = mset ?y"
    using i by (intro Suc.IH) simp
  ultimately show ?case by (simp add: j)
qed

lemma shuffle_loop_map:
  assumes "i < length x \<or> i = 0"
  shows "shuffle_loop R i (map f x) g =
         (map f (fst (shuffle_loop R i x g)), snd (shuffle_loop R i x g))"
  using assms
proof (induction i arbitrary: x g)
  case 0
  then show ?case by simp
next
  case (Suc i)
  obtain j g' where j: "randbelow R (Suc (Suc i)) g = (j, g')" by (cases "randbelow R (Suc (Suc i)) g")
  have "fst (randbelow R (Suc (Suc i)) g) < Suc (Suc i)" by (rule randbelow_less) simp
  then have jlt: "j < length x" using Suc.prems j by simp
  have i: "Suc i < length x" using Suc.prems by simp
  let ?y = "x[Suc i := x ! j, j := x ! Suc i]"
  have swap: "(map f x)[Suc i := map f x ! j, j := map f x ! Suc i] = map f ?y"
    using jlt i by (simp add: map_update)
  have "shuffle_loop R i (map f ?y) g' =
        (map f (fst (shuffle_loop R i ?y g')), snd (shuffle_loop R i ?y g'))"
    using i by (intro Suc.IH) simp
  then show ?case by (simp add: j swap)
qed

lemma random_shuffle_mset: "mset (fst (random_shuffle R x g)) = mset x"
  unfolding random_shuffle_def by (rule shuffle_loop_mset) (cases x, simp_all)

lemma random_shuffle_length: "length (fst (random_shuffle R x g)) = length x"
  unfolding random_shuffle_def by (rule shuffle_loop_length)

lemma random_shuffle_map:
  "random_shuffle R (map f x) g =
   (map f (fst (random_shuffle R x g)), snd (random_shuffle R x g))"
proof -
  have "length x - 1 < length x \<or> length x - 1 = 0" by (cases x) simp_all
  then show ?thesis
    unfolding random_shuffle_def by (simp add: shuffle_loop_map)
qed

lemma random_shuffle_indices:
  "fst (random_shuffle R x g) =
   map (\<lambda>k. x ! k) (fst (random_shuffle R [0..<length x] g))"
proof -
  have "random_shuffle R (map (\<lambda>k. x ! k) [0..<length x]) g =
        (map (\<lambda>k. x ! k) (fst (random_shuffle R [0..<length x] g)),
         snd (random_shuffle R [0..<length x] g))"
    by (rule random_shuffle_map)
  then show ?thesis by (simp add: map_nth)
qed


lemma positive_loop_None:
  "positive_loop R None sequence window_size idxs g =
   Inr (concat (map (\<lambda>i. if sequence ! i = 0 then [] else window_couples sequence window_size i) idxs), g)"
  by (induction idxs) simp_all

lemma window_couples_nonzero:
  assumes "c \<in> set (window_couples sequence window_size i)" and "sequence ! i \<noteq> 0"
  shows "fst c \<noteq> 0 \<and> snd c \<noteq> 0"
  using assms by (auto simp add: window_couples_def Let_def)

lemma length_window_couples:
  "length (window_couples sequence window_size i) =
   card {j. max 0 (int i - window_size) \<le> j \<and>
            j < min (int (length sequence)) (int i + window_size + 1) \<and>
            j \<noteq> int i \<and> sequence ! nat j \<noteq> 0}"
proof -
  let ?lo = "max 0 (int i - window_size)"
  let ?hi = "min (int (length sequence)) (int i + window_size + 1)"
  let ?P = "\<lambda>j. j \<noteq> int i \<and> sequence ! nat j \<noteq> 0"
  have "length (window_couples sequence window_size i) = length (filter ?P [?lo..?hi - 1])"
    by (simp add: window_couples_def Let_def)
  also have "\<dots> = card ({j. ?P j} \<inter> set [?lo..?hi - 1])"
    by (rule distinct_length_filter) simp
  also have "{j. ?P j} \<inter> set [?lo..?hi - 1] =
             {j. ?lo \<le> j \<and> j < ?hi \<and> j \<noteq> int i \<and> sequence ! nat j \<noteq> 0}"
    by auto
  finally show ?thesis .
qed

lemma length_concat_sum:
  "length (concat (map f [0..<n])) = (\<Sum>i<n. length (f i))"
  by (induction n) simp_all

lemma positive_pairs_count:
  "length (concat (map (\<lambda>i. if sequence ! i = 0 then []
                              else window_couples sequence window_size i) [0..<length sequence])) =
   card {(i, j). i < length sequence \<and>
                 max 0 (int i - window_size) \<le> j \<and>
                 j < min (int (length sequence)) (int i + window_size + 1) \<and>
                 j \<noteq> int i \<and> sequence ! i \<noteq> 0 \<and> sequence ! nat j \<noteq> 0}"
proof -
  let ?n = "length sequence"
  let ?J = "\<lambda>i. {j. max 0 (int i - window_size) \<le> j \<and>
            j < min (int ?n) (int i + window_size + 1) \<and>
            j \<noteq> int i \<and> sequence ! nat j \<noteq> 0}"
  let ?A = "{i. i < ?n \<and> sequence ! i \<noteq> 0}"
  have finJ: "finite (?J i)" for i
  proof -
    have "?J i \<subseteq> {0..<int ?n}" by auto
    then show ?thesis by (rule finite_subset) simp
  qed
  have "length (concat (map (\<lambda>i. if sequence ! i = 0 then []
                              else window_couples sequence window_size i) [0..<?n])) =
        (\<Sum>i<?n. length (if sequence ! i = 0 then [] else window_couples sequence window_size i))"
    by (rule length_concat_sum)
  also have "\<dots> = (\<Sum>i<?n. if sequence ! i \<noteq> 0 then card (?J i) else 0)"
    by (intro sum.cong refl) (simp add: length_window_couples)
  also have "\<dots> = (\<Sum>i\<in>?A. card (?J i))"
  proof -
    have A: "?A = {i \<in> {..<?n}. sequence ! i \<noteq> 0}" by auto
    have "(\<Sum>i\<in>{i \<in> {..<?n}. sequence ! i \<noteq> 0}. card (?J i)) =
          (\<Sum>i<?n. if sequence ! i \<noteq> 0 then card (?J i) else 0)"
      by (rule sum.inter_filter) simp
    then show ?thesis by (simp only: A)
  qed
  also have "\<dots> = card (SIGMA i:?A. ?J i)"
    using finJ by simp
  also have "(SIGMA i:?A. ?J i) =
             {(i, j). i < ?n \<and> max 0 (int i - window_size) \<le> j \<and>
                 j < min (int ?n) (int i + window_size + 1) \<and>
                 j \<noteq> int i \<and> sequence ! i \<noteq> 0 \<and> sequence ! nat j \<noteq> 0}"
    by auto
  finally show ?thesis .
qed

lemma random_randint_Inr:
  assumes "a \<le> b"
  shows "\<exists>w g'. random_randint R a b g = Inr (w, g') \<and> a \<le> w \<and> w \<le> b"
proof -
  obtain r g' where r: "randbelow R (nat (b - a + 1)) g = (r, g')"
    by (cases "randbelow R (nat (b - a + 1)) g")
  have "fst (randbelow R (nat (b - a + 1)) g) < nat (b - a + 1)"
    using assms by (intro randbelow_less) simp
  then have "int r \<le> b - a" using r by simp
  then show ?thesis using assms by (simp add: random_randint_def r)
qed

lemma negative_loop_Inr:
  assumes "2 \<le> vocabulary_size" and "idxs \<noteq> [] \<longrightarrow> words \<noteq> []"
  shows "\<exists>negatives g'. negative_loop R words vocabulary_size idxs g = Inr (negatives, g') \<and>
           length negatives = length idxs \<and>
           (\<forall>c\<in>set negatives. fst c \<in> set words \<and> 1 \<le> snd c \<and> snd c \<le> vocabulary_size - 1)"
  using assms(2)
proof (induction idxs arbitrary: g)
  case Nil
  then show ?case by simp
next
  case (Cons i rest)
  then have words: "words \<noteq> []" by simp
  obtain w g1 where w: "random_randint R 1 (vocabulary_size - 1) g = Inr (w, g1)"
    "1 \<le> w" "w \<le> vocabulary_size - 1"
    using random_randint_Inr [of 1 "vocabulary_size - 1" R g] assms(1) by auto
  obtain negatives g' where n: "negative_loop R words vocabulary_size rest g1 = Inr (negatives, g')"
    "length negatives = length rest"
    "\<forall>c\<in>set negatives. fst c \<in> set words \<and> 1 \<le> snd c \<and> snd c \<le> vocabulary_size - 1"
    using Cons.IH [of g1] words by auto
  have "words ! (i mod length words) \<in> set words"
    using words by simp
  then show ?case
    using words w n by simp
qed


lemma negative_loop_length:
  assumes "negative_loop R words vocabulary_size idxs g = Inr (negatives, g')"
  shows "length negatives = length idxs"
  using assms
proof (induction idxs arbitrary: g negatives)
  case Nil
  then show ?case by simp
next
  case (Cons i rest)
  then show ?case
    by (auto split: if_splits sum.splits prod.splits)
qed

lemma skipgrams_samples_lengths:
  assumes "skipgrams_samples R sequence vocabulary_size window_size negative_samples categorical
             sampling_table g = Inr (couples, labels, g')"
  shows "length couples = length labels"
  using assms
  by (auto simp add: skipgrams_samples_def Let_def split: sum.splits prod.splits if_splits
        dest: negative_loop_length)

lemma positive_label_neq: "positive_label categorical \<noteq> negative_label categorical"
  by (simp add: positive_label_def negative_label_def)

lemma count_positive_labels:
  "length (filter (\<lambda>l. l = positive_label categorical)
     (replicate n (positive_label categorical) @ replicate m (negative_label categorical))) = n"
  using positive_label_neq [of categorical] by (simp add: filter_replicate) 

lemma length_filter_mset:
  assumes "mset xs = mset ys"
  shows "length (filter P xs) = length (filter P ys)"
proof -
  have "mset (filter P xs) = mset (filter P ys)"
    using assms by (simp only: mset_filter)
  then show ?thesis by (rule mset_eq_length)
qed



lemma skipgrams_samples_None_unfold:
  "skipgrams_samples R sequence vocabulary_size window_size negative_samples categorical None g =
   (if 0 < negative_samples then
      (case random_shuffle R (map fst (concat (map (\<lambda>i. if sequence ! i = 0 then []
                  else window_couples sequence window_size i) [0..<length sequence]))) g of
         (words, g2) \<Rightarrow>
           (case negative_loop R words vocabulary_size
                   [0..<nat \<lfloor>rat_of_nat (length (concat (map (\<lambda>i. if sequence ! i = 0 then []
                      else window_couples sequence window_size i) [0..<length sequence]))) *
                      negative_samples\<rfloor>] g2 of
              Inl e \<Rightarrow> Inl e
            | Inr (negatives, g3) \<Rightarrow>
                Inr (concat (map (\<lambda>i. if sequence ! i = 0 then []
                      else window_couples sequence window_size i) [0..<length sequence]) @ negatives,
                     replicate (length (concat (map (\<lambda>i. if sequence ! i = 0 then []
                      else window_couples sequence window_size i) [0..<length sequence])))
                       (positive_label categorical) @
                     replicate (nat \<lfloor>rat_of_nat (length (concat (map (\<lambda>i. if sequence ! i = 0 then []
                      else window_couples sequence window_size i) [0..<length sequence]))) *
                      negative_samples\<rfloor>) (negative_label categorical),
                     g3)))
    else Inr (concat (map (\<lambda>i. if sequence ! i = 0 then []
                      else window_couples sequence window_size i) [0..<length sequence]),
              replicate (length (concat (map (\<lambda>i. if sequence ! i = 0 then []
                      else window_couples sequence window_size i) [0..<length sequence])))
                (positive_label categorical), g))"
  unfolding skipgrams_samples_def positive_loop_None
  by (simp only: sum.case prod.case Let_def length_replicate)


lemma negative_stage:
  fixes P :: "(int \<times> int) list"
  assumes V: "2 \<le> vocabulary_size"
    and nz: "\<forall>c\<in>set P. fst c \<noteq> 0 \<and> snd c \<noteq> 0"
    and n: "0 < n \<longrightarrow> P \<noteq> []"
  shows "\<exists>negatives g'.
           (case random_shuffle R (map fst P) g of
              (words, g2) \<Rightarrow>
                (case negative_loop R words vocabulary_size [0..<n] g2 of
                   Inl e \<Rightarrow> Inl e
                 | Inr (negatives, g3) \<Rightarrow>
                     Inr (P @ negatives, replicate (length P) pl @ replicate n nl, g3))) =
           Inr (P @ negatives, replicate (length P) pl @ replicate (length negatives) nl, g') \<and>
           (\<forall>c\<in>set (P @ negatives). fst c \<noteq> 0 \<and> snd c \<noteq> 0)"
proof -
  obtain words g2 where sh: "random_shuffle R (map fst P) g = (words, g2)"
    by (cases "random_shuffle R (map fst P) g")
  have "mset words = mset (map fst P)"
    using random_shuffle_mset [of R "map fst P" g] by (simp only: sh fst_conv)
  then have "set words = set (map fst P)" by (rule mset_eq_setD)
  then have wset: "set words = fst ` set P" by (simp only: set_map)
  have ne: "[0..<n] \<noteq> [] \<longrightarrow> words \<noteq> []"
  proof
    assume "[0..<n] \<noteq> []"
    then have "0 < n" by simp
    then have "P \<noteq> []" using n by blast
    then have "set P \<noteq> {}" by simp
    then have "set words \<noteq> {}" using wset by simp
    then show "words \<noteq> []" by auto
  qed
  obtain negatives g' where neg: "negative_loop R words vocabulary_size [0..<n] g2 = Inr (negatives, g')"
    and len: "length negatives = length [0..<n]"
    and inw: "\<forall>c\<in>set negatives. fst c \<in> set words \<and> 1 \<le> snd c \<and> snd c \<le> vocabulary_size - 1"
    using negative_loop_Inr [OF V ne, of R g2] by blast
  have len': "length negatives = n" using len by simp
  have negnz: "fst c \<noteq> 0 \<and> snd c \<noteq> 0" if c: "c \<in> set negatives" for c
  proof -
    from inw c have "fst c \<in> set words" and s1: "1 \<le> snd c" by blast+
    then have "fst c \<in> fst ` set P" by (simp only: wset)
    then obtain c' where "c' \<in> set P" and "fst c = fst c'" by blast
    then have "fst c \<noteq> 0" using nz by auto
    moreover have "snd c \<noteq> 0" using s1 by simp
    ultimately show ?thesis by blast
  qed
  have all: "\<forall>c\<in>set (P @ negatives). fst c \<noteq> 0 \<and> snd c \<noteq> 0"
  proof
    fix c assume "c \<in> set (P @ negatives)"
    then have "c \<in> set P \<or> c \<in> set negatives" by simp
    then show "fst c \<noteq> 0 \<and> snd c \<noteq> 0" using nz negnz by blast
  qed
  have "(case random_shuffle R (map fst P) g of
              (words, g2) \<Rightarrow>
                (case negative_loop R words vocabulary_size [0..<n] g2 of
                   Inl e \<Rightarrow> Inl e
                 | Inr (negatives, g3) \<Rightarrow>
                     Inr (P @ negatives, replicate (length P) pl @ replicate n nl, g3))) =
           Inr (P @ negatives, replicate (length P) pl @ replicate (length negatives) nl, g')"
    by (simp only: sh neg len' prod.case sum.case)
  with all show ?thesis by blast
qed


lemma positive_couples_nonzero:
  "\<forall>c\<in>set (concat (map (\<lambda>i. if sequence ! i = 0 then []
        else window_couples sequence window_size i) idxs)). fst c \<noteq> 0 \<and> snd c \<noteq> 0"
proof
  fix c
  assume "c \<in> set (concat (map (\<lambda>i. if sequence ! i = 0 then []
        else window_couples sequence window_size i) idxs))"
  then obtain i where "sequence ! i \<noteq> 0" and "c \<in> set (window_couples sequence window_size i)"
    by (auto split: if_splits)
  then show "fst c \<noteq> 0 \<and> snd c \<noteq> 0" using window_couples_nonzero by blast
qed

lemma skipgrams_samples_None:
  assumes "0 < negative_samples \<longrightarrow> 2 \<le> vocabulary_size"
  shows "\<exists>negatives g'.
           skipgrams_samples R sequence vocabulary_size window_size negative_samples categorical
             None g =
           Inr (concat (map (\<lambda>i. if sequence ! i = 0 then []
                  else window_couples sequence window_size i) [0..<length sequence]) @ negatives,
                replicate (length (concat (map (\<lambda>i. if sequence ! i = 0 then []
                  else window_couples sequence window_size i) [0..<length sequence])))
                  (positive_label categorical) @
                replicate (length negatives) (negative_label categorical), g') \<and>
           (\<forall>c\<in>set (concat (map (\<lambda>i. if sequence ! i = 0 then []
                  else window_couples sequence window_size i) [0..<length sequence]) @ negatives).
              fst c \<noteq> 0 \<and> snd c \<noteq> 0)"
proof -
  define P where "P = concat (map (\<lambda>i. if sequence ! i = 0 then []
                  else window_couples sequence window_size i) [0..<length sequence])"
  define n where "n = nat \<lfloor>rat_of_nat (length P) * negative_samples\<rfloor>"
  have posnz: "\<forall>c\<in>set P. fst c \<noteq> 0 \<and> snd c \<noteq> 0"
    unfolding P_def by (rule positive_couples_nonzero)
  have unfold: "skipgrams_samples R sequence vocabulary_size window_size negative_samples
       categorical None g =
     (if 0 < negative_samples then
        (case random_shuffle R (map fst P) g of
           (words, g2) \<Rightarrow>
             (case negative_loop R words vocabulary_size [0..<n] g2 of
                Inl e \<Rightarrow> Inl e
              | Inr (negatives, g3) \<Rightarrow>
                  Inr (P @ negatives,
                       replicate (length P) (positive_label categorical) @
                       replicate n (negative_label categorical), g3)))
      else Inr (P, replicate (length P) (positive_label categorical), g))"
    unfolding n_def P_def by (rule skipgrams_samples_None_unfold)
  have goal: "\<exists>negatives g'.
           skipgrams_samples R sequence vocabulary_size window_size negative_samples categorical
             None g =
           Inr (P @ negatives,
                replicate (length P) (positive_label categorical) @
                replicate (length negatives) (negative_label categorical), g') \<and>
           (\<forall>c\<in>set (P @ negatives). fst c \<noteq> 0 \<and> snd c \<noteq> 0)"
  proof (cases "0 < negative_samples")
    case False
    then have "skipgrams_samples R sequence vocabulary_size window_size negative_samples
       categorical None g = Inr (P, replicate (length P) (positive_label categorical), g)"
      by (simp only: unfold if_False)
    then have "skipgrams_samples R sequence vocabulary_size window_size negative_samples
       categorical None g =
       Inr (P @ [], replicate (length P) (positive_label categorical) @
                replicate (length ([] :: (int \<times> int) list)) (negative_label categorical), g) \<and>
       (\<forall>c\<in>set (P @ []). fst c \<noteq> 0 \<and> snd c \<noteq> 0)"
      using posnz by simp
    then show ?thesis by blast
  next
    case True
    then have V: "2 \<le> vocabulary_size" using assms by blast
    have np: "0 < n \<longrightarrow> P \<noteq> []"
    proof
      assume "0 < n"
      show "P \<noteq> []"
      proof
        assume "P = []"
        then have "n = 0" by (simp add: n_def)
        with \<open>0 < n\<close> show False by simp
      qed
    qed
    have "skipgrams_samples R sequence vocabulary_size window_size negative_samples
       categorical None g =
        (case random_shuffle R (map fst P) g of
           (words, g2) \<Rightarrow>
             (case negative_loop R words vocabulary_size [0..<n] g2 of
                Inl e \<Rightarrow> Inl e
              | Inr (negatives, g3) \<Rightarrow>
                  Inr (P @ negatives,
                       replicate (length P) (positive_label categorical) @
                       replicate n (negative_label categorical), g3)))"
      using True by (simp only: unfold if_True)
    then show ?thesis
      using negative_stage [OF V posnz np, where R = R and g = g
          and pl = "positive_label categorical" and nl = "negative_label categorical"]
      by (simp only:)
  qed
  then show ?thesis unfolding P_def .
qed


lemma skipgrams_of_samples:
  assumes "skipgrams_samples R sequence vocabulary_size window_size negative_samples categorical
             sampling_table g = Inr (couples, labels, g4)"
  shows "\<exists>s. (seed = None \<or> seed = Some s) \<and>
           skipgrams R sequence vocabulary_size window_size negative_samples shuffle categorical
             sampling_table seed g =
           (if shuffle
            then Inr ((fst (random_shuffle R couples (random_seed R s)),
                       fst (random_shuffle R labels (random_seed R s))),
                      snd (random_shuffle R labels (random_seed R s)))
            else Inr ((couples, labels), g4))"
proof (cases seed)
  case None
  obtain s g5 where "random_randint R 0 10000000 g4 = Inr (s, g5)"
    using random_randint_Inr [of 0 10000000 R g4] by auto
  then show ?thesis
    using assms None by (intro exI [of _ s]) (simp add: skipgrams_def split: prod.splits)
next
  case (Some s)
  then show ?thesis
    using assms by (intro exI [of _ s]) (simp add: skipgrams_def split: prod.splits)
qed


text \<open>
  C5. Without a sampling table, and with a vocabulary size of at least 2 whenever negative
  samples are requested, \<open>skipgrams\<close> returns; no returned couple has the word 0 as either
  element; and the number of positive labels returned is the number of pairs of positions
  \<open>(i, j)\<close> with \<open>j\<close> in \<open>[max 0 (i - window_size), min len (i + window_size + 1))\<close>, \<open>j \<noteq> i\<close>,
  and both words different from 0.
\<close>

theorem skipgrams_no_zero_and_positive_count:
  assumes "0 < negative_samples \<longrightarrow> 2 \<le> vocabulary_size"
  shows "\<exists>couples labels g'.
           skipgrams R sequence vocabulary_size window_size negative_samples shuffle categorical
             None seed g = Inr ((couples, labels), g') \<and>
           length couples = length labels \<and>
           (\<forall>c\<in>set couples. fst c \<noteq> 0 \<and> snd c \<noteq> 0) \<and>
           length (filter (\<lambda>l. l = positive_label categorical) labels) =
             card {(i, j). i < length sequence \<and>
                           max 0 (int i - window_size) \<le> j \<and>
                           j < min (int (length sequence)) (int i + window_size + 1) \<and>
                           j \<noteq> int i \<and> sequence ! i \<noteq> 0 \<and> sequence ! nat j \<noteq> 0}"
proof -
  let ?P = "concat (map (\<lambda>i. if sequence ! i = 0 then []
                  else window_couples sequence window_size i) [0..<length sequence])"
  let ?S = "{(i, j). i < length sequence \<and>
                           max 0 (int i - window_size) \<le> j \<and>
                           j < min (int (length sequence)) (int i + window_size + 1) \<and>
                           j \<noteq> int i \<and> sequence ! i \<noteq> 0 \<and> sequence ! nat j \<noteq> 0}"
  let ?pos = "\<lambda>l. l = positive_label categorical"
  obtain negatives g4 where
    samples: "skipgrams_samples R sequence vocabulary_size window_size negative_samples categorical
             None g =
           Inr (?P @ negatives,
                replicate (length ?P) (positive_label categorical) @
                replicate (length negatives) (negative_label categorical), g4)"
    and nz: "\<forall>c\<in>set (?P @ negatives). fst c \<noteq> 0 \<and> snd c \<noteq> 0"
    using skipgrams_samples_None [OF assms, of R sequence window_size categorical g] by blast
  let ?cs = "?P @ negatives"
  let ?ls = "replicate (length ?P) (positive_label categorical) @
                replicate (length negatives) (negative_label categorical)"
  have count: "length (filter ?pos ?ls) = card ?S"
    by (simp only: count_positive_labels positive_pairs_count)
  obtain s where run:
    "skipgrams R sequence vocabulary_size window_size negative_samples shuffle categorical
             None seed g =
           (if shuffle
            then Inr ((fst (random_shuffle R ?cs (random_seed R s)),
                       fst (random_shuffle R ?ls (random_seed R s))),
                      snd (random_shuffle R ?ls (random_seed R s)))
            else Inr ((?cs, ?ls), g4))"
    using skipgrams_of_samples [OF samples, of seed shuffle] by blast
  show ?thesis
  proof (cases shuffle)
    case False
    then have "skipgrams R sequence vocabulary_size window_size negative_samples shuffle categorical
             None seed g = Inr ((?cs, ?ls), g4)" using run by simp
    moreover have "length ?cs = length ?ls" by simp
    ultimately show ?thesis using nz count by blast
  next
    case True
    let ?cs' = "fst (random_shuffle R ?cs (random_seed R s))"
    let ?ls' = "fst (random_shuffle R ?ls (random_seed R s))"
    have "set ?cs' = set ?cs"
      using random_shuffle_mset [of R ?cs "random_seed R s"] by (rule mset_eq_setD)
    then have nz': "\<forall>c\<in>set ?cs'. fst c \<noteq> 0 \<and> snd c \<noteq> 0" using nz by simp
    have "length (filter ?pos ?ls') = length (filter ?pos ?ls)"
      using random_shuffle_mset [of R ?ls "random_seed R s"] by (rule length_filter_mset)
    then have count': "length (filter ?pos ?ls') = card ?S" using count by simp
    have len: "length ?cs' = length ?ls'" by (simp add: random_shuffle_length)
    have "skipgrams R sequence vocabulary_size window_size negative_samples shuffle categorical
             None seed g = Inr ((?cs', ?ls'), snd (random_shuffle R ?ls (random_seed R s)))"
      using run True by simp
    then show ?thesis using nz' count' len by blast
  qed
qed



theorem skipgrams_no_zero_and_positive_count_witness:
  "(2::int) \<le> 4 \<and>
   skipgrams lcg [1, 0, 2, 3] 4 1 1 True False None (Some 7) 0 =
     Inr (([(3, 1), (3, 2), (2, 3), (2, 3)], [Scalar 0, Scalar 1, Scalar 1, Scalar 0]), 8) \<and>
   card {(i, j). i < length [1, 0, 2, 3 :: int] \<and>
                 max 0 (int i - 1) \<le> j \<and>
                 j < min (int (length [1, 0, 2, 3 :: int])) (int i + 1 + 1) \<and>
                 j \<noteq> int i \<and> [1, 0, 2, 3 :: int] ! i \<noteq> 0 \<and> [1, 0, 2, 3 :: int] ! nat j \<noteq> 0} = 2"
proof -
  have run: "skipgrams lcg [1, 0, 2, 3] 4 1 1 True False None (Some 7) 0 =
     Inr (([(3, 1), (3, 2), (2, 3), (2, 3)], [Scalar 0, Scalar 1, Scalar 1, Scalar 0]), 8)"
    by code_simp
  have hyp: "(0::rat) < 1 \<longrightarrow> (2::int) \<le> 4" by simp
  obtain couples labels g' where
    r: "skipgrams lcg [1, 0, 2, 3] 4 1 1 True False None (Some 7) 0 = Inr ((couples, labels), g')"
    and c: "length (filter (\<lambda>l. l = positive_label False) labels) =
       card {(i, j). i < length [1, 0, 2, 3 :: int] \<and>
                 max 0 (int i - 1) \<le> j \<and>
                 j < min (int (length [1, 0, 2, 3 :: int])) (int i + 1 + 1) \<and>
                 j \<noteq> int i \<and> [1, 0, 2, 3 :: int] ! i \<noteq> 0 \<and> [1, 0, 2, 3 :: int] ! nat j \<noteq> 0}"
    using skipgrams_no_zero_and_positive_count [OF hyp, of lcg "[1, 0, 2, 3]" 1 True False "Some 7" 0]
    by blast
  from r run have "labels = [Scalar 0, Scalar 1, Scalar 1, Scalar 0]" by simp
  then have "length (filter (\<lambda>l. l = positive_label False) labels) = 2"
    by (simp add: positive_label_def)
  with c run show ?thesis by simp
qed


lemma zip_nth_permuted:
  assumes "length xs = length ys" and "mset perm = mset [0..<length xs]"
  shows "mset (zip (map (\<lambda>k. xs ! k) perm) (map (\<lambda>k. ys ! k) perm)) = mset (zip xs ys)"
proof -
  have "zip (map (\<lambda>k. xs ! k) perm) (map (\<lambda>k. ys ! k) perm) = map (\<lambda>k. (xs ! k, ys ! k)) perm"
    by (induction perm) simp_all
  then have "mset (zip (map (\<lambda>k. xs ! k) perm) (map (\<lambda>k. ys ! k) perm)) =
             image_mset (\<lambda>k. (xs ! k, ys ! k)) (mset perm)"
    by simp
  also have "\<dots> = mset (map (\<lambda>k. (xs ! k, ys ! k)) [0..<length xs])"
    by (simp only: assms(2) mset_map)
  also have "map (\<lambda>k. (xs ! k, ys ! k)) [0..<length xs] = zip xs ys"
    using assms(1) by (intro nth_equalityI) simp_all
  finally show ?thesis .
qed


text \<open>
  C6. Let \<open>skipgrams\<close> without shuffling return the couples and labels \<open>(couples, labels)\<close>. Then
  the two lists have the same length, and with \<^verbatim>\<open>shuffle=True\<close> the same call returns the two
  lists shuffled separately, each from the generator state that \<^verbatim>\<open>random.seed(s)\<close> installs,
  where \<open>s\<close> is the given seed or the one drawn. Both shuffles apply one and the same
  rearrangement of the positions \<open>0, ..., n - 1\<close>, so the returned lists are \<open>couples\<close> and
  \<open>labels\<close> read through one common permutation, and the multiset of (couple, label)
  associations is the one before the shuffle.
\<close>

theorem skipgrams_shuffle_common_permutation:
  assumes "skipgrams R sequence vocabulary_size window_size negative_samples False categorical
             sampling_table seed g = Inr ((couples, labels), g1)"
  shows "length couples = length labels \<and>
         (\<exists>s perm couples' labels' g2.
            (seed = None \<or> seed = Some s) \<and>
            skipgrams R sequence vocabulary_size window_size negative_samples True categorical
              sampling_table seed g = Inr ((couples', labels'), g2) \<and>
            couples' = fst (random_shuffle R couples (random_seed R s)) \<and>
            labels' = fst (random_shuffle R labels (random_seed R s)) \<and>
            perm = fst (random_shuffle R [0..<length couples] (random_seed R s)) \<and>
            mset perm = mset [0..<length couples] \<and>
            couples' = map (\<lambda>k. couples ! k) perm \<and>
            labels' = map (\<lambda>k. labels ! k) perm \<and>
            mset (zip couples' labels') = mset (zip couples labels))"
proof -
  from assms have samples:
    "skipgrams_samples R sequence vocabulary_size window_size negative_samples categorical
       sampling_table g = Inr (couples, labels, g1)"
    by (auto simp add: skipgrams_def split: sum.splits prod.splits)
  have len: "length couples = length labels"
    using samples by (rule skipgrams_samples_lengths)
  obtain s where s: "seed = None \<or> seed = Some s"
    and run: "skipgrams R sequence vocabulary_size window_size negative_samples True categorical
             sampling_table seed g =
           Inr ((fst (random_shuffle R couples (random_seed R s)),
                 fst (random_shuffle R labels (random_seed R s))),
                snd (random_shuffle R labels (random_seed R s)))"
    using skipgrams_of_samples [OF samples, of seed True] by auto
  let ?perm = "fst (random_shuffle R [0..<length couples] (random_seed R s))"
  have perm: "mset ?perm = mset [0..<length couples]"
    by (rule random_shuffle_mset)
  have c: "fst (random_shuffle R couples (random_seed R s)) = map (\<lambda>k. couples ! k) ?perm"
    by (rule random_shuffle_indices)
  have l: "fst (random_shuffle R labels (random_seed R s)) = map (\<lambda>k. labels ! k) ?perm"
    using random_shuffle_indices [of R labels "random_seed R s"] by (simp add: len)
  have z: "mset (zip (map (\<lambda>k. couples ! k) ?perm) (map (\<lambda>k. labels ! k) ?perm)) =
           mset (zip couples labels)"
    using len perm by (rule zip_nth_permuted)
  show ?thesis
    using len s run perm c l z by (intro conjI exI [of _ s] exI [of _ ?perm]) auto
qed


theorem skipgrams_shuffle_common_permutation_witness:
  "skipgrams lcg [1, 0, 2, 3] 4 1 1 False False None (Some 7) 0 =
     Inr (([(2, 3), (3, 2), (3, 1), (2, 3)], [Scalar 1, Scalar 1, Scalar 0, Scalar 0]), 13) \<and>
   skipgrams lcg [1, 0, 2, 3] 4 1 1 True False None (Some 7) 0 =
     Inr (([(3, 1), (3, 2), (2, 3), (2, 3)], [Scalar 0, Scalar 1, Scalar 1, Scalar 0]), 8) \<and>
   mset (zip ([(3, 1), (3, 2), (2, 3), (2, 3)] :: (int \<times> int) list) [Scalar 0, Scalar 1, Scalar 1, Scalar 0]) =
   mset (zip ([(2, 3), (3, 2), (3, 1), (2, 3)] :: (int \<times> int) list) [Scalar 1, Scalar 1, Scalar 0, Scalar 0])"
proof -
  have plain: "skipgrams lcg [1, 0, 2, 3] 4 1 1 False False None (Some 7) 0 =
     Inr (([(2, 3), (3, 2), (3, 1), (2, 3)], [Scalar 1, Scalar 1, Scalar 0, Scalar 0]), 13)"
    by code_simp
  have run: "skipgrams lcg [1, 0, 2, 3] 4 1 1 True False None (Some 7) 0 =
     Inr (([(3, 1), (3, 2), (2, 3), (2, 3)], [Scalar 0, Scalar 1, Scalar 1, Scalar 0]), 8)"
    by code_simp
  obtain couples' labels' g2 where
    r: "skipgrams lcg [1, 0, 2, 3] 4 1 1 True False None (Some 7) 0 = Inr ((couples', labels'), g2)"
    and m: "mset (zip couples' labels') =
       mset (zip ([(2, 3), (3, 2), (3, 1), (2, 3)] :: (int \<times> int) list) [Scalar 1, Scalar 1, Scalar 0, Scalar 0])"
    using skipgrams_shuffle_common_permutation [OF plain] by blast
  from r run have "couples' = [(3, 1), (3, 2), (2, 3), (2, 3)]"
    and "labels' = [Scalar 0, Scalar 1, Scalar 1, Scalar 0]" by simp_all
  with m plain run show ?thesis by simp
qed

end
